theory Spec2Isabelle
  imports Main "HOL-Library.Char_ord" "HOL-Library.List_Lexorder"
begin

section \<open>Shared-folder registry and exposure resolver\<close>

text \<open>
  The module \<^verbatim>\<open>src/backend/db/shared_folders.py\<close> defines the class
  \<^verbatim>\<open>SharedFolderOperations\<close>: CRUD operations on the table
  \<^verbatim>\<open>agent_shared_folder_config\<close>, two discovery queries that filter the
  table through the permission collaborator, and two pure naming helpers.

  Agent names are Python strings, stored as TEXT; they are modelled as \<^typ>\<open>string\<close>
  (the bytes of the name). The order of \<^verbatim>\<open>ORDER BY agent_name\<close> is the
  lexicographic order of these byte lists (SQLite's default BINARY collation), which is
  the linear order that \<open>Char_ord\<close> and \<open>List_Lexorder\<close> put on \<^typ>\<open>string\<close>.
\<close>

subsection \<open>Data model\<close>

text \<open>
  A \<^verbatim>\<open>datetime\<close> value. The table stores the text \<^verbatim>\<open>isoformat()\<close> gives and
  \<^verbatim>\<open>_row_to_config\<close> reads it back with \<^verbatim>\<open>datetime.fromisoformat\<close>, which
  inverts \<^verbatim>\<open>isoformat\<close>; the model keeps the value itself in the column
  (microseconds on the clock \<^verbatim>\<open>datetime.utcnow()\<close> reads).
\<close>

type_synonym datetime = int

text \<open>
  Modelled from the spec: the model class \<^verbatim>\<open>SharedFolderConfig\<close> is imported from
  \<^verbatim>\<open>db_models\<close>, which is not among the source files. Its fields are the five
  keyword arguments every constructor call of the module passes, with the types the spec's
  data model gives them.
\<close>

record SharedFolderConfig =
  agent_name :: string
  expose_enabled :: bool
  consume_enabled :: bool
  created_at :: datetime
  updated_at :: datetime

text \<open>
  Modelled from the spec: the schema of the table \<^verbatim>\<open>agent_shared_folder_config\<close> is
  not among the source files. A row has the five columns the module's SQL statements name;
  the two flags are booleans (SQLite keeps the Python \<^verbatim>\<open>True\<close>/\<^verbatim>\<open>False\<close> the
  module writes as 1/0, and \<^verbatim>\<open>bool(row[...])\<close> reads them back).
  The table is the list of its rows in insertion order. Nothing in the model relies on
  \<^verbatim>\<open>agent_name\<close> being a key: that no operation ever creates a second row for an
  agent is proved below (\<open>upsert_keeps_unique_key\<close>).
\<close>

record config_row =
  row_agent_name :: string
  row_expose_enabled :: bool
  row_consume_enabled :: bool
  row_created_at :: datetime
  row_updated_at :: datetime

type_synonym config_table = "config_row list"

text \<open>\<^verbatim>\<open>_row_to_config\<close>: a database row as a \<^verbatim>\<open>SharedFolderConfig\<close>.\<close>

definition row_to_config :: "config_row \<Rightarrow> SharedFolderConfig" where
  "row_to_config row =
     \<lparr>agent_name = row_agent_name row,
      expose_enabled = row_expose_enabled row,
      consume_enabled = row_consume_enabled row,
      created_at = row_created_at row,
      updated_at = row_updated_at row\<rparr>"

text \<open>
  \<^verbatim>\<open>SELECT ... FROM agent_shared_folder_config WHERE agent_name = ?\<close> followed by
  \<^verbatim>\<open>cursor.fetchone()\<close>: the first matching row, or \<^verbatim>\<open>None\<close>.
\<close>

definition select_by_name :: "config_table \<Rightarrow> string \<Rightarrow> config_row list" where
  "select_by_name t name = filter (\<lambda>r. row_agent_name r = name) t"

definition fetchone :: "'a list \<Rightarrow> 'a option" where
  "fetchone rows = (case rows of [] \<Rightarrow> None | row # _ \<Rightarrow> Some row)"

subsection \<open>Config CRUD operations\<close>

definition get_shared_folder_config :: "config_table \<Rightarrow> string \<Rightarrow> SharedFolderConfig option" where
  "get_shared_folder_config t name =
     (case fetchone (select_by_name t name) of
        Some row \<Rightarrow> Some (row_to_config row)
      | None \<Rightarrow> None)"

text \<open>
  \<^verbatim>\<open>upsert_shared_folder_config\<close>. The clock reading \<^verbatim>\<open>datetime.utcnow()\<close> is the
  parameter \<open>now\<close>; the result is the returned config and the table after the commit.
  \<^verbatim>\<open>UPDATE ... WHERE agent_name = ?\<close> rewrites three columns of every matching row;
  \<^verbatim>\<open>INSERT\<close> appends a row.
\<close>

definition upsert_shared_folder_config ::
  "config_table \<Rightarrow> string \<Rightarrow> bool option \<Rightarrow> bool option \<Rightarrow> datetime
     \<Rightarrow> SharedFolderConfig \<times> config_table" where
  "upsert_shared_folder_config t name expose consume now =
     (case fetchone (select_by_name t name) of
        Some existing \<Rightarrow>
          (let new_expose = (case expose of Some b \<Rightarrow> b | None \<Rightarrow> row_expose_enabled existing);
               new_consume = (case consume of Some b \<Rightarrow> b | None \<Rightarrow> row_consume_enabled existing)
           in (\<lparr>agent_name = name,
                expose_enabled = new_expose,
                consume_enabled = new_consume,
                created_at = row_created_at existing,
                updated_at = now\<rparr>,
               map (\<lambda>r. if row_agent_name r = name
                        then r\<lparr>row_expose_enabled := new_expose,
                               row_consume_enabled := new_consume,
                               row_updated_at := now\<rparr>
                        else r) t))
      | None \<Rightarrow>
          (let new_expose = (case expose of Some b \<Rightarrow> b | None \<Rightarrow> False);
               new_consume = (case consume of Some b \<Rightarrow> b | None \<Rightarrow> False)
           in (\<lparr>agent_name = name,
                expose_enabled = new_expose,
                consume_enabled = new_consume,
                created_at = now,
                updated_at = now\<rparr>,
               t @ [\<lparr>row_agent_name = name,
                      row_expose_enabled = new_expose,
                      row_consume_enabled = new_consume,
                      row_created_at = now,
                      row_updated_at = now\<rparr>])))"

text \<open>
  \<^verbatim>\<open>delete_shared_folder_config\<close>: \<^verbatim>\<open>DELETE ... WHERE agent_name = ?\<close> removes
  every matching row, \<^verbatim>\<open>cursor.rowcount\<close> is the number of rows removed.
\<close>

definition delete_shared_folder_config :: "config_table \<Rightarrow> string \<Rightarrow> bool \<times> config_table" where
  "delete_shared_folder_config t name =
     (let rowcount = length (filter (\<lambda>r. row_agent_name r = name) t)
      in (rowcount > 0, filter (\<lambda>r. row_agent_name r \<noteq> name) t))"

subsection \<open>Discovery operations\<close>

text \<open>
  \<^verbatim>\<open>SELECT agent_name FROM agent_shared_folder_config WHERE expose_enabled = 1
  ORDER BY agent_name\<close>.
\<close>

definition get_agents_exposing_folders :: "config_table \<Rightarrow> string list" where
  "get_agents_exposing_folders t =
     map row_agent_name (sort_key row_agent_name (filter row_expose_enabled t))"

text \<open>
  The permission collaborator \<^verbatim>\<open>self._permission_ops\<close> is handed to the constructor and
  is not part of the module. Its method \<^verbatim>\<open>is_permitted(caller, target)\<close> either returns
  a boolean (\<open>Inr\<close>) or raises (\<open>Inl\<close>, carrying the exception).
\<close>

type_synonym 'e permission_ops = "string \<Rightarrow> string \<Rightarrow> 'e + bool"

text \<open>
  The loop of \<^verbatim>\<open>get_available_shared_folders\<close> over \<^verbatim>\<open>exposing_agents\<close>, with the
  list \<^verbatim>\<open>available\<close> built so far. The source has no \<^verbatim>\<open>try\<close>: an exception of
  \<^verbatim>\<open>is_permitted\<close> leaves the loop and the method.
\<close>

fun available_loop ::
  "'e permission_ops \<Rightarrow> string \<Rightarrow> string list \<Rightarrow> string list \<Rightarrow> 'e + string list" where
  "available_loop is_permitted requesting_agent [] available = Inr available"
| "available_loop is_permitted requesting_agent (agent # rest) available =
     (if agent \<noteq> requesting_agent
      then (case is_permitted requesting_agent agent of
              Inl exn \<Rightarrow> Inl exn
            | Inr permitted \<Rightarrow>
                if permitted
                then available_loop is_permitted requesting_agent rest (available @ [agent])
                else available_loop is_permitted requesting_agent rest available)
      else available_loop is_permitted requesting_agent rest available)"

definition get_available_shared_folders ::
  "'e permission_ops \<Rightarrow> config_table \<Rightarrow> string \<Rightarrow> 'e + string list" where
  "get_available_shared_folders is_permitted t requesting_agent =
     (let exposing_agents = get_agents_exposing_folders t
      in available_loop is_permitted requesting_agent exposing_agents [])"

text \<open>
  \<^verbatim>\<open>get_consuming_agents\<close>: the query
  \<^verbatim>\<open>SELECT agent_name ... WHERE consume_enabled = 1 AND agent_name != ? ORDER BY agent_name\<close>,
  then the loop that asks \<^verbatim>\<open>is_permitted(agent, source_agent)\<close>.
\<close>

fun consuming_loop ::
  "'e permission_ops \<Rightarrow> string \<Rightarrow> string list \<Rightarrow> string list \<Rightarrow> 'e + string list" where
  "consuming_loop is_permitted source_agent [] available = Inr available"
| "consuming_loop is_permitted source_agent (agent # rest) available =
     (case is_permitted agent source_agent of
        Inl exn \<Rightarrow> Inl exn
      | Inr permitted \<Rightarrow>
          if permitted
          then consuming_loop is_permitted source_agent rest (available @ [agent])
          else consuming_loop is_permitted source_agent rest available)"

definition get_consuming_agents ::
  "'e permission_ops \<Rightarrow> config_table \<Rightarrow> string \<Rightarrow> 'e + string list" where
  "get_consuming_agents is_permitted t source_agent =
     (let consuming_agents =
            map row_agent_name
              (sort_key row_agent_name
                 (filter (\<lambda>r. row_consume_enabled r \<and> row_agent_name r \<noteq> source_agent) t))
      in consuming_loop is_permitted source_agent consuming_agents [])"

subsection \<open>Docker volume name helpers\<close>

definition get_shared_volume_name :: "string \<Rightarrow> string" where
  "get_shared_volume_name name = ''agent-'' @ name @ ''-shared''"

definition get_shared_mount_path :: "string \<Rightarrow> string" where
  "get_shared_mount_path source_agent = ''/home/developer/shared-in/'' @ source_agent"

subsection \<open>Calls of the public methods\<close>

text \<open>
  The six methods of \<^verbatim>\<open>SharedFolderOperations\<close> that reach the database, as calls with
  their arguments (for the upsert, the clock reading too). Only
  \<^verbatim>\<open>upsert_shared_folder_config\<close> and \<^verbatim>\<open>delete_shared_folder_config\<close> execute a
  statement that writes (\<^verbatim>\<open>INSERT\<close>, \<^verbatim>\<open>UPDATE\<close>, \<^verbatim>\<open>DELETE\<close>) and commit; the
  other four execute a \<^verbatim>\<open>SELECT\<close> only, so they leave the table as it is, whatever
  they return or raise.
\<close>

datatype registry_call =
    Get_config string
  | Upsert_config string "bool option" "bool option" datetime
  | Delete_config string
  | Agents_exposing
  | Available_folders string
  | Consuming_agents string

fun is_write :: "registry_call \<Rightarrow> bool" where
  "is_write (Upsert_config name expose consume now) = True"
| "is_write (Delete_config name) = True"
| "is_write (Get_config name) = False"
| "is_write Agents_exposing = False"
| "is_write (Available_folders name) = False"
| "is_write (Consuming_agents name) = False"

fun table_after :: "registry_call \<Rightarrow> config_table \<Rightarrow> config_table" where
  "table_after (Upsert_config name expose consume now) t =
     snd (upsert_shared_folder_config t name expose consume now)"
| "table_after (Delete_config name) t = snd (delete_shared_folder_config t name)"
| "table_after (Get_config name) t = t"
| "table_after Agents_exposing t = t"
| "table_after (Available_folders name) t = t"
| "table_after (Consuming_agents name) t = t"

subsection \<open>A concrete registry\<close>

text \<open>
  Three agents configured through the module itself, on an empty table, in an order that is
  not the alphabetical one: \<open>gamma\<close> exposes and consumes, \<open>alpha\<close> exposes, \<open>beta\<close>
  first exposes and then, in a second call, consumes as well.
\<close>

definition registry_example :: config_table where
  "registry_example =
     fold table_after
       [Upsert_config ''gamma'' (Some True) (Some True) 10,
        Upsert_config ''alpha'' (Some True) None 20,
        Upsert_config ''beta'' (Some True) None 30,
        Upsert_config ''beta'' None (Some True) 40] []"

text \<open>
  A permission directory that cannot answer any question about \<open>beta\<close> and allows every
  other pair.
\<close>

definition beta_unreachable :: "string permission_ops" where
  "beta_unreachable caller target =
     (if caller = ''beta'' \<or> target = ''beta'' then Inl ''permission directory unreachable''
      else Inr True)"

section \<open>Verified properties\<close>

subsection \<open>Facts about the table operations\<close>

lemma fetchone_name: "fetchone (select_by_name t A) = Some r \<Longrightarrow> row_agent_name r = A"
  by (induction t) (auto simp: select_by_name_def fetchone_def split: if_splits)

lemma fetchone_after_update:
  assumes "\<And>r. row_agent_name (f r) = row_agent_name r"
  shows "fetchone (select_by_name (map (\<lambda>r. if row_agent_name r = A then f r else r) t) A)
         = map_option f (fetchone (select_by_name t A))"
  using assms by (induction t) (auto simp: select_by_name_def fetchone_def)

lemma get_none_iff:
  "get_shared_folder_config t A = None \<longleftrightarrow> fetchone (select_by_name t A) = None"
  by (simp add: get_shared_folder_config_def split: option.splits)

lemma get_some_iff:
  "get_shared_folder_config t A = Some cfg \<longleftrightarrow>
     (\<exists>r. fetchone (select_by_name t A) = Some r \<and> cfg = row_to_config r)"
  by (auto simp add: get_shared_folder_config_def split: option.splits)

lemma get_agent_name: "get_shared_folder_config t A = Some old \<Longrightarrow> agent_name old = A"
  by (auto simp add: get_some_iff row_to_config_def dest: fetchone_name)

text \<open>What \<^verbatim>\<open>upsert_shared_folder_config\<close> returns is what a following get returns.\<close>

lemma get_after_upsert:
  "get_shared_folder_config (snd (upsert_shared_folder_config t A e c now)) A
     = Some (fst (upsert_shared_folder_config t A e c now))"
proof (cases "fetchone (select_by_name t A)")
  case None
  then have "select_by_name t A = []"
    by (simp add: fetchone_def split: list.splits)
  then show ?thesis using None
    by (simp add: get_shared_folder_config_def upsert_shared_folder_config_def Let_def
          select_by_name_def fetchone_def row_to_config_def)
next
  case (Some r)
  have nm: "row_agent_name r = A" using Some by (rule fetchone_name)
  show ?thesis using Some nm
    by (simp add: get_shared_folder_config_def upsert_shared_folder_config_def Let_def
          fetchone_after_update row_to_config_def)
qed

lemma upsert_fresh:
  "get_shared_folder_config t A = None \<Longrightarrow>
   fst (upsert_shared_folder_config t A e c now) =
     \<lparr>agent_name = A,
      expose_enabled = (case e of Some b \<Rightarrow> b | None \<Rightarrow> False),
      consume_enabled = (case c of Some b \<Rightarrow> b | None \<Rightarrow> False),
      created_at = now, updated_at = now\<rparr>"
  by (simp add: get_none_iff upsert_shared_folder_config_def Let_def)

lemma upsert_existing:
  "get_shared_folder_config t A = Some old \<Longrightarrow>
   fst (upsert_shared_folder_config t A e c now) =
     \<lparr>agent_name = A,
      expose_enabled = (case e of Some b \<Rightarrow> b | None \<Rightarrow> expose_enabled old),
      consume_enabled = (case c of Some b \<Rightarrow> b | None \<Rightarrow> consume_enabled old),
      created_at = created_at old, updated_at = now\<rparr>"
  by (auto simp add: get_some_iff upsert_shared_folder_config_def Let_def row_to_config_def
        split: option.splits)

text \<open>
  The update statement rewrites neither \<^verbatim>\<open>agent_name\<close> nor \<^verbatim>\<open>created_at\<close> of any
  row.
\<close>

lemma update_keeps_columns:
  "get_shared_folder_config t A = Some old \<Longrightarrow>
   map row_agent_name (snd (upsert_shared_folder_config t A e c now)) = map row_agent_name t
   \<and> map row_created_at (snd (upsert_shared_folder_config t A e c now)) = map row_created_at t"
  by (auto simp add: get_some_iff upsert_shared_folder_config_def Let_def)

text \<open>
  No operation gives an agent a second row: \<^verbatim>\<open>agent_name\<close> stays a key of the table.
\<close>

lemma upsert_keeps_unique_key:
  assumes d: "distinct (map row_agent_name t)"
  shows "distinct (map row_agent_name (snd (upsert_shared_folder_config t A e c now)))"
proof (cases "get_shared_folder_config t A")
  case None
  then have "select_by_name t A = []"
    by (simp add: get_none_iff fetchone_def split: list.splits)
  then have "A \<notin> row_agent_name ` set t"
    by (auto simp: select_by_name_def filter_empty_conv)
  then show ?thesis using None d
    by (simp add: get_none_iff upsert_shared_folder_config_def Let_def)
next
  case (Some old)
  then show ?thesis using d by (simp add: update_keeps_columns)
qed

lemma delete_keeps_unique_key:
  "distinct (map row_agent_name t) \<Longrightarrow>
   distinct (map row_agent_name (snd (delete_shared_folder_config t A)))"
  by (simp add: delete_shared_folder_config_def distinct_map_filter)

text \<open>
  While \<^verbatim>\<open>agent_name\<close> is a key, the rows of the table and the configs
  \<^verbatim>\<open>get_shared_folder_config\<close> returns are the same thing: an agent has a row with a
  property exactly when its config has it.
\<close>

lemma unique_key_fetchone:
  "distinct (map row_agent_name t) \<Longrightarrow> r \<in> set t \<Longrightarrow>
   fetchone (select_by_name t (row_agent_name r)) = Some r"
  by (induction t) (auto simp: select_by_name_def fetchone_def)

lemma rows_are_configs:
  assumes "distinct (map row_agent_name t)"
  shows "(\<exists>r. r \<in> set t \<and> row_agent_name r = B \<and> P (row_to_config r))
         \<longleftrightarrow> (\<exists>cfg. get_shared_folder_config t B = Some cfg \<and> P cfg)"
proof
  assume "\<exists>r. r \<in> set t \<and> row_agent_name r = B \<and> P (row_to_config r)"
  then obtain r where r: "r \<in> set t" "row_agent_name r = B" "P (row_to_config r)"
    by blast
  from unique_key_fetchone [OF assms r(1)] r(2,3)
  show "\<exists>cfg. get_shared_folder_config t B = Some cfg \<and> P cfg"
    by (simp add: get_shared_folder_config_def)
next
  assume "\<exists>cfg. get_shared_folder_config t B = Some cfg \<and> P cfg"
  then obtain r where r: "fetchone (select_by_name t B) = Some r" "P (row_to_config r)"
    by (auto simp: get_some_iff)
  then have "r \<in> set (select_by_name t B)"
    by (auto simp: fetchone_def split: list.splits)
  then show "\<exists>r. r \<in> set t \<and> row_agent_name r = B \<and> P (row_to_config r)"
    using r(2) by (auto simp: select_by_name_def)
qed

lemma reads_keep_table:
  "list_all (\<lambda>c. \<not> is_write c) calls \<Longrightarrow> fold table_after calls t = t"
proof (induction calls arbitrary: t)
  case Nil
  show ?case by simp
next
  case (Cons c calls)
  then show ?case by (cases c) simp_all
qed

lemma registry_example_rows:
  "registry_example =
     [\<lparr>row_agent_name = ''gamma'', row_expose_enabled = True, row_consume_enabled = True,
        row_created_at = 10, row_updated_at = 10\<rparr>,
      \<lparr>row_agent_name = ''alpha'', row_expose_enabled = True, row_consume_enabled = False,
        row_created_at = 20, row_updated_at = 20\<rparr>,
      \<lparr>row_agent_name = ''beta'', row_expose_enabled = True, row_consume_enabled = True,
        row_created_at = 30, row_updated_at = 40\<rparr>]"
  by (simp add: registry_example_def upsert_shared_folder_config_def select_by_name_def
        fetchone_def)

subsection \<open>Facts about the two filter loops\<close>

text \<open>
  Each loop either stops at the first candidate, in list order, whose lookup raises, or
  returns what it had followed by the permitted candidates, in list order.
\<close>

lemma available_loop_result:
  "available_loop p A xs acc =
     (case find (\<lambda>B. B \<noteq> A \<and> isl (p A B)) xs of
        Some B \<Rightarrow> Inl (projl (p A B))
      | None \<Rightarrow> Inr (acc @ filter (\<lambda>B. B \<noteq> A \<and> p A B = Inr True) xs))"
proof (induction xs arbitrary: acc)
  case Nil
  show ?case by simp
next
  case (Cons a xs)
  show ?case
  proof (cases "a = A")
    case True
    then show ?thesis using Cons.IH by (simp split: option.splits)
  next
    case False
    then show ?thesis using Cons.IH by (cases "p A a") (auto split: option.splits)
  qed
qed

lemma consuming_loop_result:
  "consuming_loop p S xs acc =
     (case find (\<lambda>C. isl (p C S)) xs of
        Some C \<Rightarrow> Inl (projl (p C S))
      | None \<Rightarrow> Inr (acc @ filter (\<lambda>C. p C S = Inr True) xs))"
proof (induction xs arbitrary: acc)
  case Nil
  show ?case by simp
next
  case (Cons a xs)
  then show ?case by (cases "p a S") (auto split: option.splits)
qed

lemma available_loop_total:
  "available_loop (\<lambda>c g. Inr (p c g)) A xs acc
     = Inr (acc @ filter (\<lambda>B. B \<noteq> A \<and> p A B) xs)"
  by (induction xs arbitrary: acc) simp_all

lemma consuming_loop_total:
  "consuming_loop (\<lambda>c g. Inr (p c g)) S xs acc = Inr (acc @ filter (\<lambda>C. p C S) xs)"
  by (induction xs arbitrary: acc) simp_all

lemma available_loop_off_diagonal:
  "(\<And>x y. x \<noteq> y \<Longrightarrow> p1 x y = p2 x y) \<Longrightarrow>
   available_loop p1 A xs acc = available_loop p2 A xs acc"
  by (induction xs arbitrary: acc) (simp_all split: sum.splits)

lemma consuming_loop_off_diagonal:
  "(\<And>x y. x \<noteq> y \<Longrightarrow> p1 x y = p2 x y) \<Longrightarrow> S \<notin> set xs \<Longrightarrow>
   consuming_loop p1 S xs acc = consuming_loop p2 S xs acc"
  by (induction xs arbitrary: acc) (auto split: sum.splits)

lemma exposing_set:
  "set (get_agents_exposing_folders t)
     = {B. \<exists>r. r \<in> set t \<and> row_agent_name r = B \<and> row_expose_enabled r}"
  by (auto simp: get_agents_exposing_folders_def)

lemma exposing_sorted: "sorted (get_agents_exposing_folders t)"
  by (simp add: get_agents_exposing_folders_def)

subsection \<open>Registry\<close>

text \<open>
  C3. Upsert partial-update law. When the agent has no row,
  \<^verbatim>\<open>upsert_shared_folder_config\<close> creates one in which a flag that was not given
  (\<^verbatim>\<open>None\<close>) is false and a given flag has the given value. When the agent has a row, a
  given flag overwrites the stored value and a flag that was not given keeps it. In both
  cases the returned config is the one stored. In particular, from any table, an upsert of
  \<open>A\<close> with only \<^verbatim>\<open>expose_enabled=True\<close> followed by one with only
  \<^verbatim>\<open>consume_enabled=True\<close> leaves \<open>A\<close> with both flags true.
\<close>

theorem upsert_partial_update:
  "(get_shared_folder_config t A = None \<longrightarrow>
      fst (upsert_shared_folder_config t A e c now) =
        \<lparr>agent_name = A,
         expose_enabled = (case e of Some b \<Rightarrow> b | None \<Rightarrow> False),
         consume_enabled = (case c of Some b \<Rightarrow> b | None \<Rightarrow> False),
         created_at = now, updated_at = now\<rparr>)
   \<and> (\<forall>old. get_shared_folder_config t A = Some old \<longrightarrow>
        expose_enabled (fst (upsert_shared_folder_config t A e c now))
          = (case e of Some b \<Rightarrow> b | None \<Rightarrow> expose_enabled old)
        \<and> consume_enabled (fst (upsert_shared_folder_config t A e c now))
          = (case c of Some b \<Rightarrow> b | None \<Rightarrow> consume_enabled old))
   \<and> get_shared_folder_config (snd (upsert_shared_folder_config t A e c now)) A
       = Some (fst (upsert_shared_folder_config t A e c now))
   \<and> (\<exists>cfg. get_shared_folder_config
               (snd (upsert_shared_folder_config
                       (snd (upsert_shared_folder_config t A (Some True) None now))
                       A None (Some True) later)) A = Some cfg
            \<and> cfg = fst (upsert_shared_folder_config
                            (snd (upsert_shared_folder_config t A (Some True) None now))
                            A None (Some True) later)
            \<and> expose_enabled cfg \<and> consume_enabled cfg)"
proof -
  let ?first = "upsert_shared_folder_config t A (Some True) None now"
  let ?second = "upsert_shared_folder_config (snd ?first) A None (Some True) later"
  have exposed: "expose_enabled (fst ?first)"
    by (cases "get_shared_folder_config t A") (simp_all add: upsert_fresh upsert_existing)
  have stored: "get_shared_folder_config (snd ?first) A = Some (fst ?first)"
    by (rule get_after_upsert)
  have both: "expose_enabled (fst ?second) \<and> consume_enabled (fst ?second)"
    using exposed by (simp add: upsert_existing [OF stored])
  show ?thesis
    using both by (simp add: upsert_fresh upsert_existing get_after_upsert)
qed

theorem upsert_partial_update_witness:
  "fst (upsert_shared_folder_config [] ''alpha'' (Some True) None 5)
     = \<lparr>agent_name = ''alpha'', expose_enabled = True, consume_enabled = False,
        created_at = 5, updated_at = 5\<rparr>
   \<and> expose_enabled
       (fst (upsert_shared_folder_config registry_example ''alpha'' None (Some True) 50))
   \<and> consume_enabled
       (fst (upsert_shared_folder_config registry_example ''alpha'' None (Some True) 50))
   \<and> get_shared_folder_config
       (snd (upsert_shared_folder_config registry_example ''alpha'' None (Some True) 50))
       ''alpha''
     = Some \<lparr>agent_name = ''alpha'', expose_enabled = True, consume_enabled = True,
             created_at = 20, updated_at = 50\<rparr>"
proof -
  have absent: "get_shared_folder_config [] ''alpha'' = None"
    by (simp add: get_shared_folder_config_def select_by_name_def fetchone_def)
  have present: "get_shared_folder_config registry_example ''alpha''
      = Some \<lparr>agent_name = ''alpha'', expose_enabled = True, consume_enabled = False,
              created_at = 20, updated_at = 20\<rparr>"
    by (simp add: registry_example_rows get_shared_folder_config_def select_by_name_def
          fetchone_def row_to_config_def)
  have returned: "fst (upsert_shared_folder_config registry_example ''alpha'' None (Some True) 50)
      = \<lparr>agent_name = ''alpha'', expose_enabled = True, consume_enabled = True,
         created_at = 20, updated_at = 50\<rparr>"
    by (simp add: registry_example_rows upsert_shared_folder_config_def select_by_name_def
          fetchone_def)
  from upsert_partial_update [of "[]" "''alpha''" "Some True" None 5 5]
       upsert_partial_update [of registry_example "''alpha''" None "Some True" 50 50]
       absent present returned
  show ?thesis by simp
qed

text \<open>
  C8. When the agent already has a row, \<^verbatim>\<open>upsert_shared_folder_config\<close> keeps
  \<^verbatim>\<open>created_at\<close> and the key \<^verbatim>\<open>agent_name\<close> and sets \<^verbatim>\<open>updated_at\<close> to the time
  of the call: in the config it returns, in the config a following get returns, and, for
  the two columns it keeps, in every row of the table.
\<close>

theorem upsert_keeps_created_at:
  assumes "get_shared_folder_config t A = Some old"
  shows "created_at (fst (upsert_shared_folder_config t A e c now)) = created_at old
         \<and> updated_at (fst (upsert_shared_folder_config t A e c now)) = now
         \<and> agent_name (fst (upsert_shared_folder_config t A e c now)) = agent_name old
         \<and> (\<exists>new. get_shared_folder_config (snd (upsert_shared_folder_config t A e c now)) A
                     = Some new
                \<and> created_at new = created_at old
                \<and> updated_at new = now
                \<and> agent_name new = agent_name old)
         \<and> map row_created_at (snd (upsert_shared_folder_config t A e c now))
             = map row_created_at t
         \<and> map row_agent_name (snd (upsert_shared_folder_config t A e c now))
             = map row_agent_name t"
  using assms
  by (simp add: upsert_existing get_after_upsert get_agent_name update_keeps_columns)

theorem upsert_keeps_created_at_witness:
  "created_at (fst (upsert_shared_folder_config registry_example ''gamma'' (Some False) None 70))
     = 10
   \<and> updated_at (fst (upsert_shared_folder_config registry_example ''gamma'' (Some False) None 70))
     = 70
   \<and> agent_name (fst (upsert_shared_folder_config registry_example ''gamma'' (Some False) None 70))
     = ''gamma''
   \<and> map row_created_at
       (snd (upsert_shared_folder_config registry_example ''gamma'' (Some False) None 70))
     = [10, 20, 30]"
proof -
  have present: "get_shared_folder_config registry_example ''gamma''
      = Some \<lparr>agent_name = ''gamma'', expose_enabled = True, consume_enabled = True,
              created_at = 10, updated_at = 10\<rparr>"
    by (simp add: registry_example_rows get_shared_folder_config_def select_by_name_def
          fetchone_def row_to_config_def)
  have before: "map row_created_at registry_example = [10, 20, 30]"
    by (simp add: registry_example_rows)
  from upsert_keeps_created_at [OF present, of "Some False" None 70] before
  show ?thesis by simp
qed

text \<open>
  C9. Upsert/get round trip. Right after \<^verbatim>\<open>upsert_shared_folder_config(A, e, c)\<close>,
  \<^verbatim>\<open>get_shared_folder_config(A)\<close> returns a config, not \<^verbatim>\<open>None\<close>, and it is the
  config the upsert returned: the same two flags (and the same name and timestamps).
\<close>

theorem upsert_get_round_trip:
  "\<exists>cfg. get_shared_folder_config (snd (upsert_shared_folder_config t A e c now)) A = Some cfg
     \<and> expose_enabled cfg = expose_enabled (fst (upsert_shared_folder_config t A e c now))
     \<and> consume_enabled cfg = consume_enabled (fst (upsert_shared_folder_config t A e c now))
     \<and> cfg = fst (upsert_shared_folder_config t A e c now)"
  by (simp add: get_after_upsert)

text \<open>
  C5. \<^verbatim>\<open>delete_shared_folder_config(A)\<close> returns true exactly when \<open>A\<close> had a row; after
  the call \<open>A\<close> has none; so a second call right after the first returns false. The method
  has no branch that raises: it is a total function of the table and the name.
\<close>

theorem delete_true_then_false:
  "fst (delete_shared_folder_config t A) = (get_shared_folder_config t A \<noteq> None)
   \<and> get_shared_folder_config (snd (delete_shared_folder_config t A)) A = None
   \<and> fst (delete_shared_folder_config (snd (delete_shared_folder_config t A)) A) = False"
  by (simp add: delete_shared_folder_config_def get_none_iff select_by_name_def fetchone_def
        split: list.splits)

subsection \<open>Exposure resolver\<close>

text \<open>
  C7. \<^verbatim>\<open>get_agents_exposing_folders\<close> returns exactly the agent names that have a row
  with \<^verbatim>\<open>expose_enabled\<close> set, in lexicographically sorted order (and, the agent name
  being a key of the table, each once). Calls of the reading methods between two calls
  change nothing: after any sequence of calls none of which is an upsert or a delete, the
  method returns the same list as before.
\<close>

theorem exposing_agents_sorted_and_stable:
  "set (get_agents_exposing_folders t)
     = {B. \<exists>r. r \<in> set t \<and> row_agent_name r = B \<and> row_expose_enabled r}
   \<and> sorted (get_agents_exposing_folders t)
   \<and> (distinct (map row_agent_name t) \<longrightarrow> distinct (get_agents_exposing_folders t))
   \<and> (list_all (\<lambda>c. \<not> is_write c) calls \<longrightarrow>
        get_agents_exposing_folders (fold table_after calls t) = get_agents_exposing_folders t)"
proof -
  have sorted_key: "distinct (map f (sort_key f xs))" if "distinct (map f xs)"
    for f :: "config_row \<Rightarrow> string" and xs
    using that by (simp add: distinct_map inj_on_def)
  have "distinct (get_agents_exposing_folders t)" if "distinct (map row_agent_name t)"
    unfolding get_agents_exposing_folders_def
    using that by (intro sorted_key distinct_map_filter)
  then show ?thesis
    by (simp add: exposing_set exposing_sorted reads_keep_table)
qed

theorem exposing_agents_sorted_and_stable_witness:
  "get_agents_exposing_folders
     (fold table_after
        [Get_config ''alpha'', Agents_exposing, Available_folders ''beta'',
         Consuming_agents ''alpha''] registry_example)
     = [''alpha'', ''beta'', ''gamma'']
   \<and> get_agents_exposing_folders registry_example = [''alpha'', ''beta'', ''gamma'']
   \<and> distinct (get_agents_exposing_folders registry_example)"
proof -
  have reads: "list_all (\<lambda>c. \<not> is_write c)
      [Get_config ''alpha'', Agents_exposing, Available_folders ''beta'',
       Consuming_agents ''alpha'']"
    by simp
  have key: "distinct (map row_agent_name registry_example)"
    by (simp add: registry_example_rows)
  have now: "get_agents_exposing_folders registry_example = [''alpha'', ''beta'', ''gamma'']"
    by (simp add: registry_example_rows get_agents_exposing_folders_def)
  from exposing_agents_sorted_and_stable
         [of registry_example
             "[Get_config ''alpha'', Agents_exposing, Available_folders ''beta'',
               Consuming_agents ''alpha'']"]
       reads key now
  show ?thesis by simp
qed

text \<open>
  C1. With a permission directory that answers every lookup, by the predicate \<open>p\<close>,
  \<^verbatim>\<open>get_available_shared_folders(A)\<close> returns the list of
  \<^verbatim>\<open>get_agents_exposing_folders()\<close> filtered, in place, by \<open>B \<noteq> A\<close> and \<open>p A B\<close>:
  its elements are exactly the agents \<open>B\<close> that have a row with \<^verbatim>\<open>expose_enabled\<close>
  set, differ from \<open>A\<close> and are permitted to \<open>A\<close> as caller; the list is a subsequence
  of the sorted list of exposing agents, hence sorted; and \<open>A\<close> is never in it.
\<close>

theorem available_shared_folders_exact:
  "\<exists>xs. get_available_shared_folders (\<lambda>caller target. Inr (p caller target)) t A = Inr xs
     \<and> xs = filter (\<lambda>B. B \<noteq> A \<and> p A B) (get_agents_exposing_folders t)
     \<and> set xs = {B. B \<noteq> A \<and> p A B
                   \<and> (\<exists>r. r \<in> set t \<and> row_agent_name r = B \<and> row_expose_enabled r)}
     \<and> sorted xs
     \<and> A \<notin> set xs"
  by (auto simp: get_available_shared_folders_def available_loop_total exposing_set
        exposing_sorted sorted_wrt_filter)

lemma consuming_candidates_distinct:
  assumes "distinct (map row_agent_name t)"
  shows "distinct (map row_agent_name (sort_key row_agent_name
           (filter (\<lambda>r. row_consume_enabled r \<and> row_agent_name r \<noteq> S) t)))"
proof -
  have "distinct (map row_agent_name
          (filter (\<lambda>r. row_consume_enabled r \<and> row_agent_name r \<noteq> S) t))"
    using assms by (rule distinct_map_filter)
  then show ?thesis by (simp add: distinct_map inj_on_def)
qed

text \<open>
  C2. With a permission directory that answers every lookup, by the predicate \<open>p\<close>,
  \<^verbatim>\<open>get_consuming_agents(S)\<close> returns the list of the query's candidates (the names of
  the rows with \<^verbatim>\<open>consume_enabled\<close> set and a name other than \<open>S\<close>, ordered by
  name) filtered, in place, by \<open>p C S\<close>: the candidate is the caller and \<open>S\<close> the target,
  the reverse of \<^verbatim>\<open>get_available_shared_folders\<close>. Its elements are exactly the agents
  \<open>C\<close> that have a row with \<^verbatim>\<open>consume_enabled\<close> set, differ from \<open>S\<close> and satisfy
  \<open>p C S\<close>; the list is in lexicographic order of agent name; \<open>S\<close> is not in it; and,
  the agent name being a key of the table, every agent is listed once.
\<close>

theorem consuming_agents_exact:
  "\<exists>xs. get_consuming_agents (\<lambda>caller target. Inr (p caller target)) t S = Inr xs
     \<and> xs = filter (\<lambda>C. p C S)
              (map row_agent_name
                 (sort_key row_agent_name
                    (filter (\<lambda>r. row_consume_enabled r \<and> row_agent_name r \<noteq> S) t)))
     \<and> set xs = {C. C \<noteq> S \<and> p C S
                   \<and> (\<exists>r. r \<in> set t \<and> row_agent_name r = C \<and> row_consume_enabled r)}
     \<and> sorted xs
     \<and> S \<notin> set xs
     \<and> (distinct (map row_agent_name t) \<longrightarrow> distinct xs)"
proof -
  let ?candidates = "map row_agent_name
      (sort_key row_agent_name
         (filter (\<lambda>r. row_consume_enabled r \<and> row_agent_name r \<noteq> S) t))"
  let ?xs = "filter (\<lambda>C. p C S) ?candidates"
  have returned: "get_consuming_agents (\<lambda>caller target. Inr (p caller target)) t S = Inr ?xs"
    by (simp add: get_consuming_agents_def consuming_loop_total)
  have elements: "set ?xs = {C. C \<noteq> S \<and> p C S
      \<and> (\<exists>r. r \<in> set t \<and> row_agent_name r = C \<and> row_consume_enabled r)}"
    by auto
  have ordered: "sorted ?xs"
    by (rule sorted_wrt_filter) simp
  have no_self: "S \<notin> set ?xs"
    by auto
  have once: "distinct ?xs" if "distinct (map row_agent_name t)"
    using consuming_candidates_distinct [OF that] by (rule distinct_filter)
  from returned elements ordered no_self once show ?thesis
    by blast
qed

theorem consuming_agents_exact_witness:
  "get_consuming_agents (\<lambda>caller target. Inr (target = ''alpha'') :: string + bool)
       registry_example ''alpha''
     = Inr [''beta'', ''gamma'']
   \<and> get_consuming_agents (\<lambda>caller target. Inr (caller = ''alpha'') :: string + bool)
       registry_example ''alpha''
     = Inr []
   \<and> distinct [''beta'', ''gamma'']"
proof -
  have key: "distinct (map row_agent_name registry_example)"
    by (simp add: registry_example_rows)
  have candidates: "map row_agent_name
      (sort_key row_agent_name
         (filter (\<lambda>r. row_consume_enabled r \<and> row_agent_name r \<noteq> ''alpha'')
            registry_example))
      = [''beta'', ''gamma'']"
    by (simp add: registry_example_rows)
  from consuming_agents_exact
         [of "\<lambda>caller target. target = ''alpha''" registry_example "''alpha''"]
       consuming_agents_exact
         [of "\<lambda>caller target. caller = ''alpha''" registry_example "''alpha''"]
       key candidates
  show ?thesis by auto
qed

text \<open>
  C10. The permission directory is never asked about a pair whose caller is its target: two
  directories that agree on every pair of distinct agents (in what they return and in
  whether they raise) give the same result of \<^verbatim>\<open>get_available_shared_folders\<close> and of
  \<^verbatim>\<open>get_consuming_agents\<close>, for every table and every agent.
\<close>

theorem resolver_ignores_self_permission:
  assumes "\<forall>x y. x \<noteq> y \<longrightarrow> p1 x y = p2 x y"
  shows "get_available_shared_folders p1 t A = get_available_shared_folders p2 t A
         \<and> get_consuming_agents p1 t S = get_consuming_agents p2 t S"
proof -
  have agree: "\<And>x y. x \<noteq> y \<Longrightarrow> p1 x y = p2 x y" using assms by blast
  have "S \<notin> set (map row_agent_name (sort_key row_agent_name
           (filter (\<lambda>r. row_consume_enabled r \<and> row_agent_name r \<noteq> S) t)))"
    by auto
  then show ?thesis
    by (simp add: get_available_shared_folders_def get_consuming_agents_def
          available_loop_off_diagonal [OF agree] consuming_loop_off_diagonal [OF agree])
qed

theorem resolver_ignores_self_permission_witness:
  "get_available_shared_folders (\<lambda>caller target. Inr True :: string + bool)
       registry_example ''gamma''
     = get_available_shared_folders (\<lambda>caller target. Inr (caller \<noteq> target) :: string + bool)
         registry_example ''gamma''
   \<and> get_consuming_agents (\<lambda>caller target. Inr True :: string + bool)
         registry_example ''gamma''
     = get_consuming_agents (\<lambda>caller target. Inr (caller \<noteq> target) :: string + bool)
         registry_example ''gamma''
   \<and> get_available_shared_folders (\<lambda>caller target. Inr (caller \<noteq> target) :: string + bool)
         registry_example ''gamma'' = Inr [''alpha'', ''beta'']"
proof -
  have agree: "\<forall>x y. x \<noteq> y \<longrightarrow>
      (Inr True :: string + bool) = Inr (x \<noteq> y)"
    by simp
  have res: "get_available_shared_folders
       (\<lambda>caller target. Inr (caller \<noteq> target) :: string + bool) registry_example ''gamma''
     = Inr [''alpha'', ''beta'']"
    by (simp add: registry_example_rows get_available_shared_folders_def
          get_agents_exposing_folders_def)
  from resolver_ignores_self_permission [OF agree, of registry_example "''gamma''" "''gamma''"]
       res
  show ?thesis by simp
qed

text \<open>
  C4, as the code has it. The two methods have no handler around the lookup. When
  \<^verbatim>\<open>is_permitted\<close> raises for a candidate the loop reaches, the exception of the first
  such candidate, in sorted order, leaves the method: no list is returned, so the failing
  candidate is not allowed, and neither are the candidates before and after it. When no
  lookup of a candidate raises, the method returns the candidates whose lookup returned
  true.
\<close>

theorem lookup_failure_propagates:
  "get_available_shared_folders p t A =
     (case find (\<lambda>B. B \<noteq> A \<and> isl (p A B)) (get_agents_exposing_folders t) of
        Some B \<Rightarrow> Inl (projl (p A B))
      | None \<Rightarrow>
          Inr (filter (\<lambda>B. B \<noteq> A \<and> p A B = Inr True) (get_agents_exposing_folders t)))
   \<and> get_consuming_agents p t S =
     (case find (\<lambda>C. isl (p C S))
             (map row_agent_name (sort_key row_agent_name
                (filter (\<lambda>r. row_consume_enabled r \<and> row_agent_name r \<noteq> S) t))) of
        Some C \<Rightarrow> Inl (projl (p C S))
      | None \<Rightarrow>
          Inr (filter (\<lambda>C. p C S = Inr True)
                 (map row_agent_name (sort_key row_agent_name
                    (filter (\<lambda>r. row_consume_enabled r \<and> row_agent_name r \<noteq> S) t)))))"
  by (simp add: get_available_shared_folders_def get_consuming_agents_def Let_def
        available_loop_result consuming_loop_result split: option.splits)

text \<open>
  C4 with "the remaining candidates are still returned" does not hold of the code: with \<open>alpha\<close>, \<open>beta\<close> and \<open>gamma\<close> exposing and a
  directory that raises on \<open>beta\<close>, the request of \<open>delta\<close> does not return the remaining
  candidates \<open>alpha\<close> and \<open>gamma\<close> but raises; the consumers of \<open>alpha\<close> are not
  \<open>gamma\<close> alone, the call raises too.
\<close>

theorem lookup_failure_aborts_counterexample:
  "get_available_shared_folders beta_unreachable registry_example ''delta''
     = Inl ''permission directory unreachable''
   \<and> get_available_shared_folders beta_unreachable registry_example ''delta''
     \<noteq> Inr [''alpha'', ''gamma'']
   \<and> get_consuming_agents beta_unreachable registry_example ''alpha''
     = Inl ''permission directory unreachable''
   \<and> get_consuming_agents beta_unreachable registry_example ''alpha'' \<noteq> Inr [''gamma'']"
  by (simp add: registry_example_rows get_available_shared_folders_def
        get_agents_exposing_folders_def get_consuming_agents_def beta_unreachable_def)

subsection \<open>Naming\<close>

text \<open>
  C6. \<^verbatim>\<open>get_shared_volume_name(agent_name)\<close> is exactly
  \<^verbatim>\<open>"agent-" + agent_name + "-shared"\<close> and \<^verbatim>\<open>get_shared_mount_path(source_agent)\<close>
  is exactly \<^verbatim>\<open>"/home/developer/shared-in/" + source_agent\<close>; both are functions of
  their argument alone, and both are injective: two names have the same volume name, or the
  same mount path, only when they are the same name.
\<close>

theorem naming_exact_and_injective:
  "get_shared_volume_name x = ''agent-'' @ x @ ''-shared''
   \<and> get_shared_mount_path x = ''/home/developer/shared-in/'' @ x
   \<and> (get_shared_volume_name x = get_shared_volume_name y) = (x = y)
   \<and> (get_shared_mount_path x = get_shared_mount_path y) = (x = y)"
  by (simp add: get_shared_volume_name_def get_shared_mount_path_def)

end
